theory Spec2Isabelle
  imports Main "HOL-Library.AList" "HOL-Library.Multiset"
begin

section \<open>Data model (utils.types.ts)\<close>

text \<open>
  JavaScript numbers are modelled as mathematical integers: timestamps are integral
  epoch values (negative ones included; \<open>NaN\<close> and fractions are outside the model)
  and \<open>messageCount\<close> only ever counts up from 0. Strings are lists of characters,
  and \<open>length\<close> counts them as JavaScript's \<open>length\<close> counts code units. Optional fields
  (\<open>user?\<close>, \<open>subject?\<close>, \<open>body?\<close>) are \<open>option\<close> values; the two mandatory
  fields \<open>timestamp\<close> and \<open>conversationId\<close> are options as well, because
  \<open>handleEvent\<close> itself tests for their absence at run time.
\<close>

record EventData =
  timestamp :: "int option"
  conversationId :: "string option"
  user :: "string option"
  subject :: "string option"
  body :: "string option"

text \<open>The event type is an open string: the \<open>default\<close> arm of the switch exists for
  values outside \<open>EventType\<close>.\<close>

record ConversationEvent =
  type :: string
  data :: EventData

record Conversation =
  id :: string
  assignedUser :: "string option"
  subject :: string
  blurb :: string
  messageCount :: nat
  lastUpdatedTimestamp :: int

definition MessageReceived :: string where "MessageReceived = ''messageReceived''"
definition Assigned :: string where "Assigned = ''assigned''"
definition Unassigned :: string where "Unassigned = ''unassigned''"
definition TypingStarted :: string where "TypingStarted = ''typingStarted''"
definition TypingStopped :: string where "TypingStopped = ''typingStopped''"

text \<open>\<open>{ id: conversationId, ...defaultConversation }\<close>\<close>

definition defaultConversation :: "string \<Rightarrow> Conversation" where
  "defaultConversation cid =
     \<lparr>id = cid, assignedUser = None, subject = [], blurb = [], messageCount = 0,
      lastUpdatedTimestamp = 0\<rparr>"

section \<open>The store (store.ts)\<close>

text \<open>
  \<open>conversations\<close> is a JavaScript \<open>Map\<close>, whose iteration order (insertion order)
  is observable through \<open>getConversations\<close>: it is an association list, written with
  \<open>AList.update\<close> (replace in place, or append a new key) and \<open>AList.delete\<close>.
  \<open>lastBody\<close> and \<open>typingUsers\<close> are never iterated, so they are plain maps; a
  typing \<open>Set\<close> is the list of its members in insertion order, which
  \<open>Array.from\<close> and \<open>join\<close> expose. \<open>uniqueEvents\<close> is only tested for membership.
\<close>

record Store =
  conversations :: "(string \<times> Conversation) list"
  lastBody :: "string \<rightharpoonup> string"
  uniqueEvents :: "string set"
  typingUsers :: "string \<rightharpoonup> string list"

definition blackListedUsers :: "string list" where
  "blackListedUsers = [''John_Doe'']"

definition newStore :: Store where
  "newStore = \<lparr>conversations = [], lastBody = Map.empty, uniqueEvents = {},
     typingUsers = Map.empty\<rparr>"

subsection \<open>JavaScript idioms\<close>

text \<open>\<open>x || y\<close> on an optional string: \<open>undefined\<close> and the empty string are falsy.\<close>

definition orElse :: "string option \<Rightarrow> string \<Rightarrow> string" where
  "orElse x y = (case x of None \<Rightarrow> y | Some v \<Rightarrow> if v = [] then y else v)"

text \<open>\<open>user || null\<close>\<close>

definition orNull :: "string option \<Rightarrow> string option" where
  "orNull x = (case x of None \<Rightarrow> None | Some v \<Rightarrow> if v = [] then None else Some v)"

text \<open>\<open>Set.prototype.add\<close> and \<open>Set.prototype.delete\<close> on an insertion-ordered set.\<close>

definition setAdd :: "string \<Rightarrow> string list \<Rightarrow> string list" where
  "setAdd u us = (if u \<in> set us then us else us @ [u])"

definition setDelete :: "string \<Rightarrow> string list \<Rightarrow> string list" where
  "setDelete u us = removeAll u us"

text \<open>\<open>Array.prototype.join\<close>\<close>

fun join :: "string \<Rightarrow> string list \<Rightarrow> string" where
  "join sep [] = []"
| "join sep [x] = x"
| "join sep (x # y # ys) = x @ sep @ join sep (y # ys)"

text \<open>Decimal rendering of an integer inside a template literal (\<open>`${timestamp}`\<close>).
  JavaScript switches to exponent notation from \<open>1e21\<close> on; the model renders every
  integer in plain decimal.\<close>

definition digit :: "nat \<Rightarrow> char" where
  "digit d = ''0123456789'' ! d"

function showNat :: "nat \<Rightarrow> string" where
  "showNat n = (if n < 10 then [digit n] else showNat (n div 10) @ [digit (n mod 10)])"
  by pat_completeness auto
termination
  by (relation "measure (\<lambda>n. n)") auto

declare showNat.simps [simp del]

definition showInt :: "int \<Rightarrow> string" where
  "showInt i = (if i < 0 then CHR ''-'' # showNat (nat (- i)) else showNat (nat i))"

text \<open>\<open>const eventId = `${conversationId}-${timestamp}`\<close>\<close>

definition eventId :: "string \<Rightarrow> int \<Rightarrow> string" where
  "eventId cid ts = cid @ ''-'' @ showInt ts"

subsection \<open>Typing tracker\<close>

text \<open>The phrase computed from the members of a typing set; the same three-way choice
  is written out twice in the source, in \<open>getBlurbForTypingUsers\<close> and in the
  \<open>else\<close> branch of \<open>deleteBlurbForTypingUsers\<close>.\<close>

definition typingPhrase :: "string list \<Rightarrow> string" where
  "typingPhrase us =
     (if length us = 1 then us ! 0 @ '' is replying...''
      else if length us > 1 then join '', '' us @ '' are replying...''
      else [])"

definition getBlurbForTypingUsers :: "string \<Rightarrow> Store \<Rightarrow> string" where
  "getBlurbForTypingUsers cid s =
     typingPhrase (case typingUsers s cid of None \<Rightarrow> [] | Some us \<Rightarrow> us)"

definition addAndgetBlurbForTypingUsers ::
    "string \<Rightarrow> string option \<Rightarrow> Store \<Rightarrow> string \<times> Store" where
  "addAndgetBlurbForTypingUsers cid usr s =
     (let typingUser = (case typingUsers s cid of None \<Rightarrow> [] | Some us \<Rightarrow> us);
          s1 = (case usr of
                  None \<Rightarrow> s
                | Some u \<Rightarrow>
                    if u = [] then s
                    else s\<lparr>typingUsers := (typingUsers s)(cid \<mapsto> setAdd u typingUser)\<rparr>)
      in (getBlurbForTypingUsers cid s1, s1))"

text \<open>The \<open>conversation\<close> parameter of the source is never read, and is left out.\<close>

definition deleteBlurbForTypingUsers ::
    "string \<Rightarrow> string option \<Rightarrow> Store \<Rightarrow> string \<times> Store" where
  "deleteBlurbForTypingUsers cid usr s =
     (case typingUsers s cid of
        None \<Rightarrow> ([], s)
      | Some found \<Rightarrow>
          (let found1 = (case usr of
                           None \<Rightarrow> found
                         | Some u \<Rightarrow> if u = [] then found else setDelete u found)
           in if length found1 = 0
              then (orElse (lastBody s cid) [],
                    s\<lparr>typingUsers := (typingUsers s)(cid := None)\<rparr>)
              else (typingPhrase found1,
                    s\<lparr>typingUsers := (typingUsers s)(cid \<mapsto> found1)\<rparr>)))"

subsection \<open>Pruning\<close>

text \<open>\<open>Object.keys(defaultConversation).every(...)\<close>: every field but \<open>id\<close> has its
  default value.\<close>

definition isEmptyConversation :: "Conversation \<Rightarrow> bool" where
  "isEmptyConversation c \<longleftrightarrow>
     assignedUser c = None \<and> subject c = [] \<and> blurb c = [] \<and> messageCount c = 0 \<and>
     lastUpdatedTimestamp c = 0"

definition isConversationEmptyThenRemove :: "string \<Rightarrow> Store \<Rightarrow> bool \<times> Store" where
  "isConversationEmptyThenRemove cid s =
     (case map_of (conversations s) cid of
        None \<Rightarrow> (True, s)
      | Some conversation \<Rightarrow>
          if isEmptyConversation conversation
          then (True, s\<lparr>conversations := AList.delete cid (conversations s)\<rparr>)
          else (False, s))"

subsection \<open>The reducer\<close>

text \<open>Writing through the \<open>conversation\<close> reference changes the object held by the
  map, at its place in the iteration order.\<close>

definition putConversation :: "string \<Rightarrow> Conversation \<Rightarrow> Store \<Rightarrow> Store" where
  "putConversation cid c s = s\<lparr>conversations := AList.update cid c (conversations s)\<rparr>"

text \<open>The \<open>switch\<close> of \<open>handleEvent\<close> together with the final watermark
  assignment, run on the store in which the event id has been recorded and the
  conversation exists; \<open>conversation\<close> is the object the map holds for \<open>cid\<close>.\<close>

definition dispatch ::
    "string \<Rightarrow> string \<Rightarrow> int \<Rightarrow> EventData \<Rightarrow> Conversation \<Rightarrow> Store \<Rightarrow> Store" where
  "dispatch ty cid ts d conversation s =
     (if ty = MessageReceived then
        (let c1 = conversation\<lparr>subject := orElse (EventData.subject d) (subject conversation),
                                messageCount := messageCount conversation + 1\<rparr>
         in if typingUsers s cid = None \<or> map_option length (typingUsers s cid) = Some 0
            then putConversation cid
                   (c1\<lparr>blurb := orElse (map_option (take 256) (body d)) (blurb c1),
                       lastUpdatedTimestamp := ts\<rparr>) s
            else putConversation cid (c1\<lparr>lastUpdatedTimestamp := ts\<rparr>)
                   (s\<lparr>lastBody := (lastBody s)(cid \<mapsto> orElse (body d) [])\<rparr>))
      else if ty = Assigned then
        putConversation cid
          (conversation\<lparr>assignedUser := orNull (user d), lastUpdatedTimestamp := ts\<rparr>) s
      else if ty = Unassigned then
        putConversation cid
          (conversation\<lparr>assignedUser := None, lastUpdatedTimestamp := ts\<rparr>) s
      else if ty = TypingStarted then
        (case addAndgetBlurbForTypingUsers cid (user d) s of
           (b, s1) \<Rightarrow>
             putConversation cid (conversation\<lparr>blurb := b, lastUpdatedTimestamp := ts\<rparr>) s1)
      else if ty = TypingStopped then
        (case deleteBlurbForTypingUsers cid (user d) s of
           (b, s1) \<Rightarrow>
             putConversation cid (conversation\<lparr>blurb := b, lastUpdatedTimestamp := ts\<rparr>) s1)
      else
        snd (isConversationEmptyThenRemove cid
               (s\<lparr>uniqueEvents := uniqueEvents s - {eventId cid ts}\<rparr>)))"

text \<open>The ordering check: an entry exists, carries this id and a later timestamp.\<close>

definition isStale :: "Store \<Rightarrow> string \<Rightarrow> int \<Rightarrow> bool" where
  "isStale s cid ts =
     (case map_of (conversations s) cid of
        None \<Rightarrow> False
      | Some conversation \<Rightarrow> id conversation = cid \<and> lastUpdatedTimestamp conversation > ts)"

text \<open>Recording the event id and creating the entry when there is none.\<close>

definition admit :: "string \<Rightarrow> int \<Rightarrow> Store \<Rightarrow> Store" where
  "admit cid ts s =
     (let s1 = s\<lparr>uniqueEvents := insert (eventId cid ts) (uniqueEvents s)\<rparr>
      in case map_of (conversations s1) cid of
           None \<Rightarrow> putConversation cid (defaultConversation cid) s1
         | Some c \<Rightarrow> s1)"

text \<open>\<open>this.conversations.get(conversationId) as Conversation\<close>: the cast is sound
  where the source uses it, right after the entry has been created; the model returns
  the default shape for a missing key, a case that is never taken there.\<close>

definition currentConversation :: "string \<Rightarrow> Store \<Rightarrow> Conversation" where
  "currentConversation cid s =
     (case map_of (conversations s) cid of
        None \<Rightarrow> defaultConversation cid
      | Some c \<Rightarrow> c)"

text \<open>\<open>handleEvent\<close>. The console messages are not part of the store and are not
  modelled. A missing or falsy timestamp (\<open>0\<close>) and a missing or empty conversation id
  return at once.\<close>

definition handleEvent :: "ConversationEvent \<Rightarrow> Store \<Rightarrow> Store" where
  "handleEvent event s =
     (case timestamp (data event) of
        None \<Rightarrow> s
      | Some ts \<Rightarrow>
          if ts = 0 then s
          else (case conversationId (data event) of
                  None \<Rightarrow> s
                | Some cid \<Rightarrow>
                    if cid = [] then s
                    else if isStale s cid ts then s
                    else if eventId cid ts \<in> uniqueEvents s then s
                    else (let s2 = admit cid ts s
                          in dispatch (type event) cid ts (data event)
                               (currentConversation cid s2) s2)))"

subsection \<open>The read path\<close>

text \<open>\<open>Array.prototype.sort\<close> with a comparator is a stable sort; for a comparator
  that is a total preorder its result is the one stable insertion computes.\<close>

fun insortCmp :: "('a \<Rightarrow> 'a \<Rightarrow> int) \<Rightarrow> 'a \<Rightarrow> 'a list \<Rightarrow> 'a list" where
  "insortCmp cmp x [] = [x]"
| "insortCmp cmp x (y # ys) =
     (if cmp x y \<le> 0 then x # y # ys else y # insortCmp cmp x ys)"

definition sortCmp :: "('a \<Rightarrow> 'a \<Rightarrow> int) \<Rightarrow> 'a list \<Rightarrow> 'a list" where
  "sortCmp cmp xs = foldr (insortCmp cmp) xs []"

text \<open>\<open>getConversations\<close> builds fresh arrays and assigns to no field of the store:
  it returns the list together with the store it was given.\<close>

definition getConversations :: "Store \<Rightarrow> Conversation list \<times> Store" where
  "getConversations s =
     (let conversations1 = map snd (conversations s);
          filteredUsers =
            filter (\<lambda>conversation.
                      orElse (assignedUser conversation) [] \<notin> set blackListedUsers)
              conversations1;
          sortedConversations =
            sortCmp (\<lambda>a b. lastUpdatedTimestamp b - lastUpdatedTimestamp a) filteredUsers
      in (sortedConversations, s))"

subsection \<open>Runs of the store\<close>

text \<open>The states a store passes through: a new store, then any number of
  \<open>handleEvent\<close> calls (\<open>getConversations\<close> leaves the store as it is).\<close>

inductive reachable :: "Store \<Rightarrow> bool" where
  reachable_new: "reachable newStore"
| reachable_step: "reachable s \<Longrightarrow> reachable (handleEvent e s)"

fun handleEvents :: "ConversationEvent list \<Rightarrow> Store \<Rightarrow> Store" where
  "handleEvents [] s = s"
| "handleEvents (e # es) s = handleEvents es (handleEvent e s)"

text \<open>An event that passes validation, the ordering check and the duplicate check.\<close>

definition accepted :: "ConversationEvent \<Rightarrow> string \<Rightarrow> int \<Rightarrow> Store \<Rightarrow> bool" where
  "accepted e cid ts s \<longleftrightarrow>
     timestamp (data e) = Some ts \<and> ts \<noteq> 0 \<and> conversationId (data e) = Some cid \<and>
     cid \<noteq> [] \<and> \<not> isStale s cid ts \<and> eventId cid ts \<notin> uniqueEvents s"

text \<open>The five event types of \<open>EventType\<close>; every other string takes the \<open>default\<close> arm.\<close>

definition known :: "string \<Rightarrow> bool" where
  "known ty \<longleftrightarrow> ty = MessageReceived \<or> ty = Assigned \<or> ty = Unassigned \<or> ty = TypingStarted \<or> ty = TypingStopped"

subsection \<open>Invariant of the registry\<close>

text \<open>Every entry is filed under its own id and carries the timestamp of an accepted
  event, which is never \<open>0\<close>; so no entry of a reachable store has the default shape.\<close>

definition wellFormed :: "Store \<Rightarrow> bool" where
  "wellFormed s \<longleftrightarrow>
     (\<forall>k c. map_of (conversations s) k = Some c \<longrightarrow> id c = k \<and> lastUpdatedTimestamp c \<noteq> 0)"

subsection \<open>Vocabulary of the properties\<close>

text \<open>The members of a typing set after \<open>found.delete(user)\<close>, guarded by
  \<open>found && user\<close>.\<close>

definition withoutUser :: "string option \<Rightarrow> string list \<Rightarrow> string list" where
  "withoutUser usr us = (case usr of None \<Rightarrow> us | Some u \<Rightarrow> if u = [] then us else removeAll u us)"

text \<open>An event payload in which every present-but-empty optional string has been
  replaced by an absent one.\<close>

definition dropEmpty :: "EventData \<Rightarrow> EventData" where
  "dropEmpty d = d\<lparr>user := orNull (user d), EventData.subject := orNull (EventData.subject d), body := orNull (body d)\<rparr>"

text \<open>The two orders of the read path: the comparator handed to \<open>sort\<close> and the
  order it is meant to produce.\<close>

abbreviation byRecency :: "Conversation \<Rightarrow> Conversation \<Rightarrow> bool" where
  "byRecency a b \<equiv> lastUpdatedTimestamp b \<le> lastUpdatedTimestamp a"

abbreviation recencyCmp :: "Conversation \<Rightarrow> Conversation \<Rightarrow> int" where
  "recencyCmp a b \<equiv> lastUpdatedTimestamp b - lastUpdatedTimestamp a"

subsection \<open>Example events and stores\<close>

definition mkEvent ::
    "string \<Rightarrow> int \<Rightarrow> string \<Rightarrow> string option \<Rightarrow> string option \<Rightarrow> string option \<Rightarrow> ConversationEvent" where
  "mkEvent ty ts cid usr subj bdy =
     \<lparr>type = ty,
      data = \<lparr>timestamp = Some ts, conversationId = Some cid, user = usr, subject = subj,
               body = bdy\<rparr>\<rparr>"

text \<open>A store in which \<open>u1\<close> is typing in conversation \<open>c1\<close>.\<close>

definition typingStore :: Store where
  "typingStore = handleEvent (mkEvent TypingStarted 1 ''c1'' (Some ''u1'') None None) newStore"

text \<open>A message body of 257 characters.\<close>

definition longBody :: string where
  "longBody = replicate 257 (CHR ''A'')"

section \<open>Basic facts about the operations\<close>

lemma conversations_putConversation:
  "conversations (putConversation cid c s) = AList.update cid c (conversations s)"
  "uniqueEvents (putConversation cid c s) = uniqueEvents s"
  "typingUsers (putConversation cid c s) = typingUsers s"
  "lastBody (putConversation cid c s) = lastBody s"
  by (simp_all add: putConversation_def)

lemma addAndget_fields:
  "conversations (snd (addAndgetBlurbForTypingUsers cid u s)) = conversations s"
  "uniqueEvents (snd (addAndgetBlurbForTypingUsers cid u s)) = uniqueEvents s"
  "lastBody (snd (addAndgetBlurbForTypingUsers cid u s)) = lastBody s"
  by (simp_all add: addAndgetBlurbForTypingUsers_def Let_def split: option.splits)

lemma delete_fields:
  "conversations (snd (deleteBlurbForTypingUsers cid u s)) = conversations s"
  "uniqueEvents (snd (deleteBlurbForTypingUsers cid u s)) = uniqueEvents s"
  "lastBody (snd (deleteBlurbForTypingUsers cid u s)) = lastBody s"
  by (simp_all add: deleteBlurbForTypingUsers_def Let_def split: option.splits)

lemma admit_fields:
  "uniqueEvents (admit cid ts s) = insert (eventId cid ts) (uniqueEvents s)"
  "typingUsers (admit cid ts s) = typingUsers s"
  "lastBody (admit cid ts s) = lastBody s"
  "map_of (conversations (admit cid ts s)) = (map_of (conversations s))(cid \<mapsto> currentConversation cid s)"
  by (auto simp add: admit_def Let_def putConversation_def currentConversation_def update_conv' fun_eq_iff split: option.splits)

lemma currentConversation_admit:
  "currentConversation cid (admit cid ts s) = currentConversation cid s"
  by (simp add: currentConversation_def admit_fields)


lemma kinds_distinct:
  "Assigned \<noteq> MessageReceived" "Unassigned \<noteq> MessageReceived" "Unassigned \<noteq> Assigned"
  "TypingStarted \<noteq> MessageReceived" "TypingStarted \<noteq> Assigned" "TypingStarted \<noteq> Unassigned"
  "TypingStopped \<noteq> MessageReceived" "TypingStopped \<noteq> Assigned" "TypingStopped \<noteq> Unassigned"
  "TypingStopped \<noteq> TypingStarted"
  by (simp_all add: MessageReceived_def Assigned_def Unassigned_def TypingStarted_def TypingStopped_def)

lemma dispatch_MessageReceived:
  "dispatch MessageReceived cid ts d conversation s =
        (let c1 = conversation\<lparr>subject := orElse (EventData.subject d) (subject conversation),
                                messageCount := messageCount conversation + 1\<rparr>
         in if typingUsers s cid = None \<or> map_option length (typingUsers s cid) = Some 0
            then putConversation cid
                   (c1\<lparr>blurb := orElse (map_option (take 256) (body d)) (blurb c1),
                       lastUpdatedTimestamp := ts\<rparr>) s
            else putConversation cid (c1\<lparr>lastUpdatedTimestamp := ts\<rparr>)
                   (s\<lparr>lastBody := (lastBody s)(cid \<mapsto> orElse (body d) [])\<rparr>))"
  unfolding dispatch_def by (simp only: simp_thms if_True)

lemma dispatch_Assigned:
  "dispatch Assigned cid ts d conversation s =
        putConversation cid
          (conversation\<lparr>assignedUser := orNull (user d), lastUpdatedTimestamp := ts\<rparr>) s"
  unfolding dispatch_def by (simp only: simp_thms kinds_distinct if_True if_False)

lemma dispatch_Unassigned:
  "dispatch Unassigned cid ts d conversation s =
        putConversation cid
          (conversation\<lparr>assignedUser := None, lastUpdatedTimestamp := ts\<rparr>) s"
  unfolding dispatch_def by (simp only: simp_thms kinds_distinct if_True if_False)

lemma dispatch_TypingStarted:
  "dispatch TypingStarted cid ts d conversation s =
     putConversation cid
       (conversation\<lparr>blurb := fst (addAndgetBlurbForTypingUsers cid (user d) s),
                      lastUpdatedTimestamp := ts\<rparr>)
       (snd (addAndgetBlurbForTypingUsers cid (user d) s))"
  unfolding dispatch_def by (simp only: simp_thms kinds_distinct if_True if_False case_prod_unfold)

lemma dispatch_TypingStopped:
  "dispatch TypingStopped cid ts d conversation s =
     putConversation cid
       (conversation\<lparr>blurb := fst (deleteBlurbForTypingUsers cid (user d) s),
                      lastUpdatedTimestamp := ts\<rparr>)
       (snd (deleteBlurbForTypingUsers cid (user d) s))"
  unfolding dispatch_def by (simp only: simp_thms kinds_distinct if_True if_False case_prod_unfold)

lemma dispatch_unknown:
  "\<not> known ty \<Longrightarrow> dispatch ty cid ts d conversation s =
     snd (isConversationEmptyThenRemove cid
               (s\<lparr>uniqueEvents := uniqueEvents s - {eventId cid ts}\<rparr>))"
  unfolding dispatch_def known_def by simp

lemmas dispatch_known_simps = dispatch_MessageReceived dispatch_Assigned dispatch_Unassigned
  dispatch_TypingStarted dispatch_TypingStopped

lemma dispatch_known_uniqueEvents:
  "known ty \<Longrightarrow> uniqueEvents (dispatch ty cid ts d c s) = uniqueEvents s"
  unfolding known_def
  by (elim disjE) (simp_all add: dispatch_known_simps Let_def conversations_putConversation addAndget_fields delete_fields)


lemma dispatch_known_lookup:
  "known ty \<Longrightarrow> map_of (conversations (dispatch ty cid ts d c s)) k =
     (if k = cid then Some (currentConversation cid (dispatch ty cid ts d c s))
      else map_of (conversations s) k)"
  unfolding known_def
  by (elim disjE) (simp_all add: dispatch_known_simps Let_def conversations_putConversation
      addAndget_fields delete_fields update_conv' currentConversation_def)

lemma dispatch_known_current:
  "known ty \<Longrightarrow> id (currentConversation cid (dispatch ty cid ts d c s)) = id c"
  "known ty \<Longrightarrow> lastUpdatedTimestamp (currentConversation cid (dispatch ty cid ts d c s)) = ts"
  unfolding known_def
  by (elim disjE; simp add: dispatch_known_simps Let_def conversations_putConversation
      addAndget_fields delete_fields update_conv' currentConversation_def)+

lemma rollback_eq:
  assumes "eventId cid ts \<notin> uniqueEvents s"
  shows "snd (isConversationEmptyThenRemove cid
            ((admit cid ts s)\<lparr>uniqueEvents := uniqueEvents (admit cid ts s) - {eventId cid ts}\<rparr>)) =
         (if isEmptyConversation (currentConversation cid s)
          then s\<lparr>conversations := AList.delete cid (conversations s)\<rparr> else s)"
proof (cases "map_of (conversations s) cid")
  case None
  then have "cid \<notin> fst ` set (conversations s)"
    by (simp add: map_of_eq_None_iff)
  then have "AList.delete cid (conversations s) = conversations s"
    by simp
  with None assms show ?thesis
    by (simp add: isConversationEmptyThenRemove_def admit_def Let_def putConversation_def
        update_conv' currentConversation_def defaultConversation_def isEmptyConversation_def
        delete_update_same)
next
  case (Some c)
  with assms show ?thesis
    by (simp add: isConversationEmptyThenRemove_def admit_def Let_def putConversation_def
        currentConversation_def)
qed


lemma handleEvent_rejected:
  "\<not> (\<exists>cid ts. accepted e cid ts s) \<Longrightarrow> handleEvent e s = s"
  by (auto simp add: handleEvent_def accepted_def split: option.splits)

lemma handleEvent_accepted:
  "accepted e cid ts s \<Longrightarrow>
   handleEvent e s = dispatch (type e) cid ts (data e) (currentConversation cid s) (admit cid ts s)"
  by (simp add: handleEvent_def accepted_def Let_def currentConversation_admit)

lemma handleEvent_duplicate:
  "timestamp (data e) = Some ts \<Longrightarrow> conversationId (data e) = Some cid \<Longrightarrow>
   eventId cid ts \<in> uniqueEvents s \<Longrightarrow> handleEvent e s = s"
  by (simp add: handleEvent_def)

lemma handleEvent_unknown:
  assumes "accepted e cid ts s" "\<not> known (type e)"
  shows "handleEvent e s =
         (if isEmptyConversation (currentConversation cid s)
          then s\<lparr>conversations := AList.delete cid (conversations s)\<rparr> else s)"
proof -
  from assms(1) have "eventId cid ts \<notin> uniqueEvents s"
    by (simp add: accepted_def)
  then show ?thesis
    using assms by (simp add: handleEvent_accepted dispatch_unknown rollback_eq)
qed

subsection \<open>Acceptance and the registry invariant\<close>

lemma known_kinds [simp]:
  "known MessageReceived" "known Assigned" "known Unassigned" "known TypingStarted" "known TypingStopped"
  by (simp_all add: known_def)

lemma handleEvent_known_lookup:
  "accepted e cid ts s \<Longrightarrow> known (type e) \<Longrightarrow>
   map_of (conversations (handleEvent e s)) cid = Some (currentConversation cid (handleEvent e s))"
  by (simp add: handleEvent_accepted dispatch_known_lookup)

lemma current_put:
  "currentConversation cid (putConversation cid c s) = c"
  by (simp add: currentConversation_def putConversation_def update_conv')

lemma wellFormed_newStore: "wellFormed newStore"
  by (simp add: wellFormed_def newStore_def)

lemma currentConversation_id:
  "wellFormed s \<Longrightarrow> id (currentConversation cid s) = cid"
  by (auto simp add: wellFormed_def currentConversation_def defaultConversation_def split: option.splits)

lemma wellFormed_handleEvent:
  assumes "wellFormed s"
  shows "wellFormed (handleEvent e s)"
proof (cases "\<exists>cid ts. accepted e cid ts s")
  case False
  with assms show ?thesis by (simp add: handleEvent_rejected)
next
  case True
  then obtain cid ts where acc: "accepted e cid ts s" by blast
  then have ts: "ts \<noteq> 0" by (simp add: accepted_def)
  show ?thesis
  proof (cases "known (type e)")
    case True
    show ?thesis
      unfolding wellFormed_def
    proof (intro allI impI)
      fix k c
      assume look: "map_of (conversations (handleEvent e s)) k = Some c"
      show "id c = k \<and> lastUpdatedTimestamp c \<noteq> 0"
      proof (cases "k = cid")
        case True
        with look acc \<open>known (type e)\<close> ts assms show ?thesis
          by (auto simp add: handleEvent_accepted dispatch_known_lookup dispatch_known_current
              currentConversation_id)
      next
        case False
        with look acc \<open>known (type e)\<close> have "map_of (conversations s) k = Some c"
          by (simp add: handleEvent_accepted dispatch_known_lookup admit_fields)
        with assms show ?thesis by (simp add: wellFormed_def)
      qed
    qed
  next
    case False
    with acc assms show ?thesis
      by (auto simp add: handleEvent_unknown wellFormed_def delete_conv' split: if_splits)
  qed
qed

lemma reachable_wellFormed: "reachable s \<Longrightarrow> wellFormed s"
  by (induction rule: reachable.induct) (simp_all add: wellFormed_newStore wellFormed_handleEvent)

lemma handleEvent_watermark:
  assumes wf: "wellFormed s" and look: "map_of (conversations s) k = Some c"
  shows "\<exists>c'. map_of (conversations (handleEvent e s)) k = Some c' \<and>
              lastUpdatedTimestamp c \<le> lastUpdatedTimestamp c'"
proof (cases "\<exists>cid ts. accepted e cid ts s")
  case False
  with look show ?thesis by (simp add: handleEvent_rejected)
next
  case True
  then obtain cid ts where acc: "accepted e cid ts s" by blast
  from wf look have c: "id c = k" "lastUpdatedTimestamp c \<noteq> 0"
    by (simp_all add: wellFormed_def)
  show ?thesis
  proof (cases "known (type e)")
    case True
    show ?thesis
    proof (cases "k = cid")
      case True
      with acc look c have "lastUpdatedTimestamp c \<le> ts"
        by (simp add: accepted_def isStale_def)
      with True acc \<open>known (type e)\<close> show ?thesis
        by (simp add: handleEvent_accepted dispatch_known_lookup dispatch_known_current)
    next
      case False
      with acc look \<open>known (type e)\<close> show ?thesis
        by (simp add: handleEvent_accepted dispatch_known_lookup admit_fields)
    qed
  next
    case False
    show ?thesis
    proof (cases "k = cid")
      case True
      with look c have "\<not> isEmptyConversation (currentConversation cid s)"
        by (simp add: currentConversation_def isEmptyConversation_def)
      with acc look \<open>\<not> known (type e)\<close> show ?thesis
        by (simp add: handleEvent_unknown)
    next
      case False
      with acc look \<open>\<not> known (type e)\<close> show ?thesis
        by (simp add: handleEvent_unknown delete_conv')
    qed
  qed
qed

lemma handleEvents_wellFormed: "wellFormed s \<Longrightarrow> wellFormed (handleEvents es s)"
  by (induction es arbitrary: s) (simp_all add: wellFormed_handleEvent)

lemma handleEvents_watermark:
  "wellFormed s \<Longrightarrow> map_of (conversations s) k = Some c \<Longrightarrow>
   \<exists>c'. map_of (conversations (handleEvents es s)) k = Some c' \<and>
        lastUpdatedTimestamp c \<le> lastUpdatedTimestamp c'"
proof (induction es arbitrary: s c)
  case Nil
  then show ?case by simp
next
  case (Cons e es)
  from handleEvent_watermark[OF Cons.prems, of e]
  obtain c1 where c1: "map_of (conversations (handleEvent e s)) k = Some c1"
      "lastUpdatedTimestamp c \<le> lastUpdatedTimestamp c1"
    by blast
  from Cons.IH[OF wellFormed_handleEvent[OF Cons.prems(1)] c1(1)]
  obtain c' where "map_of (conversations (handleEvents es (handleEvent e s))) k = Some c'"
      "lastUpdatedTimestamp c1 \<le> lastUpdatedTimestamp c'"
    by blast
  with c1 show ?case by auto
qed

lemma handleEvent_stale:
  assumes "wellFormed s" "map_of (conversations s) cid = Some c"
    "conversationId (data e) = Some cid" "timestamp (data e) = Some ts"
    "ts < lastUpdatedTimestamp c"
  shows "handleEvent e s = s"
  using assms by (simp add: handleEvent_def isStale_def wellFormed_def)

lemma unknown_first_event_rollback:
  assumes "accepted e cid ts s" and "\<not> known (type e)" and "map_of (conversations s) cid = None"
  shows "handleEvent e s = s"
    and "timestamp (data e') = Some ts \<Longrightarrow> conversationId (data e') = Some cid \<Longrightarrow>
         accepted e' cid ts (handleEvent e s)"
proof -
  from assms(3) have "cid \<notin> fst ` set (conversations s)"
    by (simp add: map_of_eq_None_iff)
  then have "AList.delete cid (conversations s) = conversations s"
    by simp
  with assms show same: "handleEvent e s = s"
    by (simp add: handleEvent_unknown)
  show "accepted e' cid ts (handleEvent e s)"
    if "timestamp (data e') = Some ts" and "conversationId (data e') = Some cid"
    using that assms(1) unfolding same by (simp add: accepted_def)
qed

subsection \<open>Messages and typing\<close>

lemma handleEvent_MessageReceived:
  assumes "accepted e cid ts s" "type e = MessageReceived"
  shows "handleEvent e s = dispatch MessageReceived cid ts (data e) (currentConversation cid s) (admit cid ts s)"
  using assms by (simp add: handleEvent_accepted)

lemma message_while_typing:
  assumes "accepted e cid ts s" "type e = MessageReceived" "typingUsers s cid = Some us" "us \<noteq> []"
  shows "blurb (currentConversation cid (handleEvent e s)) = blurb (currentConversation cid s)"
    "lastBody (handleEvent e s) cid = Some (orElse (body (data e)) [])"
    "typingUsers (handleEvent e s) = typingUsers s"
  using assms
  by (simp_all add: handleEvent_accepted dispatch_MessageReceived Let_def admit_fields current_put
      conversations_putConversation)

lemma typingStopped_result:
  assumes "accepted e cid ts s" "type e = TypingStopped"
  shows "blurb (currentConversation cid (handleEvent e s)) = fst (deleteBlurbForTypingUsers cid (user (data e)) s)"
    "typingUsers (handleEvent e s) = typingUsers (snd (deleteBlurbForTypingUsers cid (user (data e)) s))"
    "lastBody (handleEvent e s) = lastBody s"
  using assms
  by (simp_all add: handleEvent_accepted dispatch_TypingStopped Let_def admit_fields current_put
      conversations_putConversation deleteBlurbForTypingUsers_def split: option.splits)

lemma orElse_idem: "orElse (Some (orElse x [])) [] = (case x of None \<Rightarrow> [] | Some b \<Rightarrow> b)"
  by (simp add: orElse_def split: option.splits)

lemma handleEvent_lastBody_other:
  assumes "\<not> (type e = MessageReceived \<and> conversationId (data e) = Some cid)"
  shows "lastBody (handleEvent e s) cid = lastBody s cid"
proof (cases "\<exists>cid' ts. accepted e cid' ts s")
  case False
  then show ?thesis by (simp add: handleEvent_rejected)
next
  case True
  then obtain cid' ts where acc: "accepted e cid' ts s" by blast
  show ?thesis
  proof (cases "known (type e)")
    case False
    with acc show ?thesis by (simp add: handleEvent_unknown)
  next
    case True
    from acc have eq: "handleEvent e s =
        dispatch (type e) cid' ts (data e) (currentConversation cid' s) (admit cid' ts s)"
      by (rule handleEvent_accepted)
    show ?thesis
    proof (cases "type e = MessageReceived")
      case True
      with assms acc have "cid' \<noteq> cid" by (auto simp add: accepted_def)
      with True show ?thesis
        unfolding eq
        by (simp add: dispatch_MessageReceived Let_def conversations_putConversation admit_fields)
    next
      case False
      with \<open>known (type e)\<close> show ?thesis
        unfolding eq known_def
        by (elim disjE)
          (simp_all add: dispatch_known_simps conversations_putConversation addAndget_fields
            delete_fields admit_fields)
    qed
  qed
qed

lemma handleEvents_lastBody_other:
  "\<forall>e \<in> set es. \<not> (type e = MessageReceived \<and> conversationId (data e) = Some cid) \<Longrightarrow>
   lastBody (handleEvents es s) cid = lastBody s cid"
  by (induction es arbitrary: s) (simp_all add: handleEvent_lastBody_other)

lemma typingStopped_emptied:
  assumes acc: "accepted e cid ts s" and ty: "type e = TypingStopped"
    and ex: "typingUsers s cid \<noteq> None" and emp: "typingUsers (handleEvent e s) cid = None"
  shows "blurb (currentConversation cid (handleEvent e s)) = orElse (lastBody s cid) []"
proof -
  from ex obtain us where us: "typingUsers s cid = Some us" by auto
  from emp have "typingUsers (snd (deleteBlurbForTypingUsers cid (user (data e)) s)) cid = None"
    by (simp add: typingStopped_result[OF acc ty])
  with us have "fst (deleteBlurbForTypingUsers cid (user (data e)) s) = orElse (lastBody s cid) []"
    by (simp add: deleteBlurbForTypingUsers_def Let_def split: if_splits)
  then show ?thesis by (simp add: typingStopped_result[OF acc ty])
qed

subsection \<open>Sorting and filtering\<close>

lemma mset_insortCmp: "mset (insortCmp cmp x xs) = add_mset x (mset xs)"
  by (induction xs) simp_all

lemma mset_sortCmp: "mset (sortCmp cmp xs) = mset xs"
  by (induction xs) (simp_all add: sortCmp_def mset_insortCmp)

lemma set_sortCmp: "set (sortCmp cmp xs) = set xs"
  using mset_sortCmp[of cmp xs] by (metis set_mset_mset)

lemma set_insortCmp: "set (insortCmp cmp x xs) = insert x (set xs)"
  by (induction xs) auto

lemma sorted_insortCmp:
  "sorted_wrt byRecency xs \<Longrightarrow> sorted_wrt byRecency (insortCmp recencyCmp x xs)"
  by (induction xs) (auto simp add: set_insortCmp)

lemma sorted_sortCmp: "sorted_wrt byRecency (sortCmp recencyCmp xs)"
  by (induction xs) (simp_all add: sortCmp_def sorted_insortCmp)

lemma blackListed_iff:
  "orElse a [] \<in> set blackListedUsers \<longleftrightarrow> a \<in> Some ` set blackListedUsers"
  by (cases a) (auto simp add: orElse_def blackListedUsers_def)

lemma getConversations_member:
  "c \<in> set (fst (getConversations s)) \<longleftrightarrow>
   c \<in> snd ` set (conversations s) \<and> orElse (assignedUser c) [] \<notin> set blackListedUsers"
  by (auto simp add: getConversations_def Let_def set_sortCmp)

subsection \<open>Empty strings\<close>

lemma orElse_orNull: "orElse (orNull x) y = orElse x y"
  by (simp add: orElse_def orNull_def split: option.splits)

lemma orNull_orNull: "orNull (orNull x) = orNull x"
  by (simp add: orNull_def split: option.splits)

lemma orElse_take_orNull:
  "orElse (map_option (take 256) (orNull x)) y = orElse (map_option (take 256) x) y"
  by (simp add: orElse_def orNull_def split: option.splits)

lemma addAndget_orNull:
  "addAndgetBlurbForTypingUsers cid (orNull u) s = addAndgetBlurbForTypingUsers cid u s"
  by (simp add: addAndgetBlurbForTypingUsers_def orNull_def split: option.splits)

lemma delete_orNull:
  "deleteBlurbForTypingUsers cid (orNull u) s = deleteBlurbForTypingUsers cid u s"
  by (simp add: deleteBlurbForTypingUsers_def orNull_def split: option.splits)

lemma dropEmpty_fields:
  "timestamp (dropEmpty d) = timestamp d"
  "conversationId (dropEmpty d) = conversationId d"
  "user (dropEmpty d) = orNull (user d)"
  "EventData.subject (dropEmpty d) = orNull (EventData.subject d)"
  "body (dropEmpty d) = orNull (body d)"
  by (simp_all add: dropEmpty_def)

lemma dispatch_dropEmpty:
  "dispatch ty cid ts (dropEmpty d) c s = dispatch ty cid ts d c s"
  by (simp add: dispatch_def dropEmpty_fields orElse_orNull orNull_orNull orElse_take_orNull
      addAndget_orNull delete_orNull Let_def cong: if_cong)

lemma handleEvent_dropEmpty:
  "handleEvent (e\<lparr>data := dropEmpty (data e)\<rparr>) s = handleEvent e s"
  by (simp add: handleEvent_def dispatch_dropEmpty dropEmpty_fields Let_def split: option.splits)

subsection \<open>Evaluating the example stores\<close>

lemmas store_eval =
  handleEvent_def Let_def isStale_def admit_def currentConversation_def putConversation_def
  defaultConversation_def eventId_def showInt_def showNat.simps digit_def newStore_def
  dispatch_known_simps mkEvent_def orElse_def orNull_def
  addAndgetBlurbForTypingUsers_def deleteBlurbForTypingUsers_def getBlurbForTypingUsers_def
  typingPhrase_def setAdd_def setDelete_def

lemma handleEvents_two: "handleEvents [a, b] s = handleEvent b (handleEvent a s)"
  by simp

lemma typingStore_eval:
  "typingStore =
     \<lparr>conversations = [(''c1'', \<lparr>id = ''c1'', assignedUser = None, subject = [],
         blurb = ''u1 is replying...'', messageCount = 0, lastUpdatedTimestamp = 1\<rparr>)],
      lastBody = Map.empty, uniqueEvents = {''c1-1''},
      typingUsers = [''c1'' \<mapsto> [''u1'']]\<rparr>"
  by (simp add: typingStore_def store_eval)

lemma typing_message_eval:
  "b \<noteq> [] \<Longrightarrow>
   handleEvent (mkEvent MessageReceived 2 ''c1'' None None (Some b)) typingStore =
     \<lparr>conversations = [(''c1'', \<lparr>id = ''c1'', assignedUser = None, subject = [],
         blurb = ''u1 is replying...'', messageCount = 1, lastUpdatedTimestamp = 2\<rparr>)],
      lastBody = [''c1'' \<mapsto> b], uniqueEvents = {''c1-2'', ''c1-1''},
      typingUsers = [''c1'' \<mapsto> [''u1'']]\<rparr>"
  by (subst typingStore_eval) (simp add: store_eval)

lemma typing_message_stop_eval:
  assumes ne: "b \<noteq> []"
  shows "handleEvents [mkEvent MessageReceived 2 ''c1'' None None (Some b),
                 mkEvent TypingStopped 3 ''c1'' (Some ''u1'') None None] typingStore =
     \<lparr>conversations = [(''c1'', \<lparr>id = ''c1'', assignedUser = None, subject = [],
         blurb = b, messageCount = 1, lastUpdatedTimestamp = 3\<rparr>)],
      lastBody = [''c1'' \<mapsto> b], uniqueEvents = {''c1-3'', ''c1-2'', ''c1-1''},
      typingUsers = Map.empty\<rparr>"
  unfolding handleEvents.simps typing_message_eval[OF ne] by (simp add: store_eval)

lemma message20_eval:
  "handleEvent (mkEvent MessageReceived 20 ''c1'' None None (Some ''B'')) newStore =
   \<lparr>conversations = [(''c1'', \<lparr>id = ''c1'', assignedUser = None, subject = [], blurb = ''B'',
        messageCount = 1, lastUpdatedTimestamp = 20\<rparr>)], lastBody = Map.empty,
      uniqueEvents = {''c1-20''}, typingUsers = Map.empty\<rparr>"
  by (simp add: store_eval)

lemma reachable_handleEvents: "reachable s \<Longrightarrow> reachable (handleEvents es s)"
  by (induction es arbitrary: s) (simp_all add: reachable_step)

lemma reachable_typingStore: "reachable typingStore"
  unfolding typingStore_def by (intro reachable.intros)

section \<open>C1: length of the blurb\<close>

text \<open>
  Claim C1 asks that in every reachable store a blurb is at most 256 characters long
  unless it is the current typing-indicator phrase, the blurb restored when the typing
  set becomes empty included. The store does not do this: the body stashed in
  \<open>lastBody\<close> while somebody is typing is stored whole, and \<open>deleteBlurbForTypingUsers\<close>
  returns it whole. After \<open>u1\<close> starts typing, a message of 257 characters arrives and
  \<open>u1\<close> stops typing, the store is reachable, the blurb is the whole body of 257
  characters, and the typing-indicator phrase of the conversation is empty.
\<close>

theorem restored_body_not_truncated:
  "reachable
      (handleEvents [mkEvent MessageReceived 2 ''c1'' None None (Some longBody),
                     mkEvent TypingStopped 3 ''c1'' (Some ''u1'') None None] typingStore) \<and>
   blurb (currentConversation ''c1''
      (handleEvents [mkEvent MessageReceived 2 ''c1'' None None (Some longBody),
                     mkEvent TypingStopped 3 ''c1'' (Some ''u1'') None None] typingStore)) = longBody \<and>
   length longBody = 257 \<and>
   getBlurbForTypingUsers ''c1''
      (handleEvents [mkEvent MessageReceived 2 ''c1'' None None (Some longBody),
                     mkEvent TypingStopped 3 ''c1'' (Some ''u1'') None None] typingStore) = []"
proof -
  have ne: "longBody \<noteq> []" by (simp add: longBody_def)
  have "reachable
      (handleEvents [mkEvent MessageReceived 2 ''c1'' None None (Some longBody),
                     mkEvent TypingStopped 3 ''c1'' (Some ''u1'') None None] typingStore)"
    by (intro reachable_handleEvents reachable_typingStore)
  then show ?thesis
    by (simp only: typing_message_stop_eval[OF ne])
      (simp add: currentConversation_def getBlurbForTypingUsers_def typingPhrase_def longBody_def)
qed

section \<open>C2: idempotence\<close>

text \<open>
  Claim C2. For every event (any type string, known or not, and any payload) and every
  store, not only the reachable ones, handling the event twice in immediate succession
  leaves the store exactly as handling it once does.
\<close>

theorem handleEvent_idempotent: "handleEvent e (handleEvent e s) = handleEvent e s"
proof (cases "\<exists>cid ts. accepted e cid ts s")
  case False
  then show ?thesis by (simp add: handleEvent_rejected)
next
  case True
  then obtain cid ts where acc: "accepted e cid ts s" by blast
  show ?thesis
  proof (cases "known (type e)")
    case True
    with acc have "eventId cid ts \<in> uniqueEvents (handleEvent e s)"
      by (simp add: handleEvent_accepted dispatch_known_uniqueEvents admit_fields)
    with acc show ?thesis
      by (intro handleEvent_duplicate) (simp_all add: accepted_def)
  next
    case False
    show ?thesis
    proof (cases "isEmptyConversation (currentConversation cid s)")
      case False
      with acc \<open>\<not> known (type e)\<close> show ?thesis
        by (simp add: handleEvent_unknown)
    next
      case True
      let ?s' = "s\<lparr>conversations := AList.delete cid (conversations s)\<rparr>"
      from True acc \<open>\<not> known (type e)\<close> have s': "handleEvent e s = ?s'"
        by (simp add: handleEvent_unknown)
      have none: "map_of (conversations ?s') cid = None"
        by (simp add: delete_conv')
      with acc have acc': "accepted e cid ts ?s'"
        by (simp add: accepted_def isStale_def)
      from none have "isEmptyConversation (currentConversation cid ?s')"
        by (simp add: currentConversation_def defaultConversation_def isEmptyConversation_def)
      with acc' \<open>\<not> known (type e)\<close> have "handleEvent e ?s' = ?s'"
        by (simp add: handleEvent_unknown delete_idem)
      with s' show ?thesis by simp
    qed
  qed
qed

section \<open>C3: the watermark\<close>

text \<open>
  Claim C3. In a reachable store, a conversation that is in the registry stays there
  through any sequence of \<open>handleEvent\<close> calls and its \<open>lastUpdatedTimestamp\<close> never
  decreases; and an event for that conversation whose timestamp is strictly less than the
  conversation's \<open>lastUpdatedTimestamp\<close> leaves the whole store (registry, event ids,
  typing sets, pending bodies) as it was.
\<close>

theorem watermark_monotone:
  assumes "reachable s" and "map_of (conversations s) cid = Some c"
  shows "(\<exists>c'. map_of (conversations (handleEvents es s)) cid = Some c' \<and>
              lastUpdatedTimestamp c \<le> lastUpdatedTimestamp c') \<and>
         (conversationId (data e) = Some cid \<and> timestamp (data e) = Some ts \<and>
          ts < lastUpdatedTimestamp c \<longrightarrow> handleEvent e s = s)"
  using assms handleEvents_watermark[of s cid c es] handleEvent_stale[of s cid c e ts]
  by (simp add: reachable_wellFormed)

text \<open>Witness for C3: a message at timestamp 20, then one at timestamp 10 for the same
  conversation.\<close>

theorem watermark_monotone_witness:
  "reachable (handleEvent (mkEvent MessageReceived 20 ''c1'' None None (Some ''B'')) newStore) \<and>
   (\<exists>c'. map_of (conversations
             (handleEvents [mkEvent MessageReceived 10 ''c1'' None None (Some ''A'')]
                (handleEvent (mkEvent MessageReceived 20 ''c1'' None None (Some ''B'')) newStore)))
           ''c1'' = Some c' \<and> 20 \<le> lastUpdatedTimestamp c') \<and>
   handleEvent (mkEvent MessageReceived 10 ''c1'' None None (Some ''A''))
      (handleEvent (mkEvent MessageReceived 20 ''c1'' None None (Some ''B'')) newStore) =
   handleEvent (mkEvent MessageReceived 20 ''c1'' None None (Some ''B'')) newStore"
proof -
  let ?s = "handleEvent (mkEvent MessageReceived 20 ''c1'' None None (Some ''B'')) newStore"
  let ?e = "mkEvent MessageReceived 10 ''c1'' None None (Some ''A'')"
  let ?c = "\<lparr>id = ''c1'', assignedUser = None, subject = [], blurb = ''B'',
        messageCount = 1, lastUpdatedTimestamp = 20\<rparr>"
  have r: "reachable ?s"
    by (intro reachable.intros)
  have l: "map_of (conversations ?s) ''c1'' = Some ?c"
    by (simp add: message20_eval)
  have d: "conversationId (data ?e) = Some ''c1'' \<and> timestamp (data ?e) = Some 10 \<and>
           10 < lastUpdatedTimestamp ?c"
    by (simp add: mkEvent_def)
  from watermark_monotone[OF r l, of "[?e]" ?e 10] d r l show ?thesis
    by auto
qed

section \<open>C4: typing precedence\<close>

text \<open>
  Claim C4. While the typing set of a conversation is not empty, an accepted
  \<open>messageReceived\<close> event leaves the blurb of that conversation as it was. After any
  further events, none of them a \<open>messageReceived\<close> for this conversation, an accepted
  \<open>typingStopped\<close> event that empties the typing set (the set exists before it and is
  gone after it) makes the blurb the body of that message (the empty string when the
  message had no body).
\<close>

theorem typing_precedence:
  assumes "accepted e cid ts s" and "type e = MessageReceived"
    and "typingUsers s cid = Some us" and "us \<noteq> []"
    and "map_of (conversations s) cid = Some c"
  shows "\<exists>c1. map_of (conversations (handleEvent e s)) cid = Some c1 \<and> blurb c1 = blurb c \<and>
     (\<forall>es e2 ts2.
         (\<forall>e' \<in> set es. \<not> (type e' = MessageReceived \<and> conversationId (data e') = Some cid)) \<and>
         accepted e2 cid ts2 (handleEvents es (handleEvent e s)) \<and> type e2 = TypingStopped \<and>
         typingUsers (handleEvents es (handleEvent e s)) cid \<noteq> None \<and>
         typingUsers (handleEvent e2 (handleEvents es (handleEvent e s))) cid = None \<longrightarrow>
         (\<exists>c2. map_of (conversations (handleEvent e2 (handleEvents es (handleEvent e s)))) cid = Some c2 \<and>
               blurb c2 = (case body (data e) of None \<Rightarrow> [] | Some b \<Rightarrow> b)))"
proof -
  let ?s1 = "handleEvent e s"
  have l1: "map_of (conversations ?s1) cid = Some (currentConversation cid ?s1)"
    using assms by (simp add: handleEvent_known_lookup)
  have b1: "blurb (currentConversation cid ?s1) = blurb c"
    using message_while_typing(1)[OF assms(1-4)] assms(5) by (simp add: currentConversation_def)
  have lb: "lastBody ?s1 cid = Some (orElse (body (data e)) [])"
    using message_while_typing(2)[OF assms(1-4)] .
  have stop: "map_of (conversations (handleEvent e2 (handleEvents es ?s1))) cid =
             Some (currentConversation cid (handleEvent e2 (handleEvents es ?s1))) \<and>
           blurb (currentConversation cid (handleEvent e2 (handleEvents es ?s1))) =
           (case body (data e) of None \<Rightarrow> [] | Some b \<Rightarrow> b)"
    if h: "(\<forall>e' \<in> set es. \<not> (type e' = MessageReceived \<and> conversationId (data e') = Some cid)) \<and>
         accepted e2 cid ts2 (handleEvents es ?s1) \<and> type e2 = TypingStopped \<and>
         typingUsers (handleEvents es ?s1) cid \<noteq> None \<and>
         typingUsers (handleEvent e2 (handleEvents es ?s1)) cid = None" for es e2 ts2
  proof -
    let ?s2 = "handleEvents es ?s1"
    from h have acc2: "accepted e2 cid ts2 ?s2" and ty2: "type e2 = TypingStopped"
      and ex: "typingUsers ?s2 cid \<noteq> None" and emp: "typingUsers (handleEvent e2 ?s2) cid = None"
      by simp_all
    from h have "lastBody ?s2 cid = lastBody ?s1 cid"
      by (intro handleEvents_lastBody_other) simp
    with lb have "orElse (lastBody ?s2 cid) [] = (case body (data e) of None \<Rightarrow> [] | Some b \<Rightarrow> b)"
      by (simp add: orElse_idem)
    with typingStopped_emptied[OF acc2 ty2 ex emp]
    have "blurb (currentConversation cid (handleEvent e2 ?s2)) =
           (case body (data e) of None \<Rightarrow> [] | Some b \<Rightarrow> b)"
      by simp
    moreover from acc2 ty2 have "map_of (conversations (handleEvent e2 ?s2)) cid =
             Some (currentConversation cid (handleEvent e2 ?s2))"
      using handleEvent_known_lookup[of e2 cid ts2 ?s2] by simp
    ultimately show ?thesis by simp
  qed
  from l1 b1 stop show ?thesis by blast
qed

text \<open>Witness for C4: \<open>u1\<close> is typing, the message \<open>hi\<close> arrives, \<open>u1\<close> stops typing.\<close>

theorem typing_precedence_witness:
  "(\<exists>c1. map_of (conversations
             (handleEvent (mkEvent MessageReceived 2 ''c1'' None None (Some ''hi'')) typingStore))
           ''c1'' = Some c1 \<and> blurb c1 = ''u1 is replying...'') \<and>
   (\<exists>c2. map_of (conversations
             (handleEvent (mkEvent TypingStopped 3 ''c1'' (Some ''u1'') None None)
                (handleEvent (mkEvent MessageReceived 2 ''c1'' None None (Some ''hi'')) typingStore)))
           ''c1'' = Some c2 \<and> blurb c2 = ''hi'')"
proof -
  let ?e = "mkEvent MessageReceived 2 ''c1'' None None (Some ''hi'')"
  let ?e2 = "mkEvent TypingStopped 3 ''c1'' (Some ''u1'') None None"
  let ?c = "\<lparr>id = ''c1'', assignedUser = None, subject = [],
         blurb = ''u1 is replying...'', messageCount = 0, lastUpdatedTimestamp = 1\<rparr>"
  have ne: "''hi'' \<noteq> []" by simp
  have acc: "accepted ?e ''c1'' 2 typingStore"
    by (simp add: typingStore_eval accepted_def isStale_def mkEvent_def eventId_def showInt_def
        showNat.simps digit_def)
  have ty: "type ?e = MessageReceived" by (simp add: mkEvent_def)
  have tu: "typingUsers typingStore ''c1'' = Some [''u1'']" by (simp add: typingStore_eval)
  have look: "map_of (conversations typingStore) ''c1'' = Some ?c" by (simp add: typingStore_eval)
  have acc2: "accepted ?e2 ''c1'' 3 (handleEvent ?e typingStore)"
    unfolding typing_message_eval[OF ne]
    by (simp add: accepted_def isStale_def mkEvent_def eventId_def showInt_def
        showNat.simps digit_def)
  have ty2: "type ?e2 = TypingStopped" by (simp add: mkEvent_def)
  have emp: "typingUsers (handleEvent ?e2 (handleEvent ?e typingStore)) ''c1'' = None"
    using typing_message_stop_eval[OF ne] by (simp add: handleEvents_two)
  have ex: "typingUsers (handleEvent ?e typingStore) ''c1'' \<noteq> None"
    unfolding typing_message_eval[OF ne] by simp
  from typing_precedence[OF acc ty tu _ look]
  obtain c1 where c1: "map_of (conversations (handleEvent ?e typingStore)) ''c1'' = Some c1"
    "blurb c1 = blurb ?c"
    and stop: "\<forall>es e2 ts2.
         (\<forall>e' \<in> set es. \<not> (type e' = MessageReceived \<and> conversationId (data e') = Some ''c1'')) \<and>
         accepted e2 ''c1'' ts2 (handleEvents es (handleEvent ?e typingStore)) \<and>
         type e2 = TypingStopped \<and>
         typingUsers (handleEvents es (handleEvent ?e typingStore)) ''c1'' \<noteq> None \<and>
         typingUsers (handleEvent e2 (handleEvents es (handleEvent ?e typingStore))) ''c1'' = None \<longrightarrow>
         (\<exists>c2. map_of (conversations (handleEvent e2 (handleEvents es (handleEvent ?e typingStore))))
                  ''c1'' = Some c2 \<and>
               blurb c2 = (case body (data ?e) of None \<Rightarrow> [] | Some b \<Rightarrow> b))"
    by auto
  from stop[rule_format, of "[]" ?e2 3] acc2 ty2 ex emp
  have "\<exists>c2. map_of (conversations (handleEvent ?e2 (handleEvent ?e typingStore))) ''c1'' = Some c2 \<and>
               blurb c2 = (case body (data ?e) of None \<Rightarrow> [] | Some b \<Rightarrow> b)"
    by simp
  then have "\<exists>c2. map_of (conversations (handleEvent ?e2 (handleEvent ?e typingStore))) ''c1'' = Some c2 \<and>
               blurb c2 = ''hi''"
    by (simp add: mkEvent_def)
  with c1 show ?thesis by auto
qed

section \<open>C5: typingStopped\<close>

text \<open>Where the conversation has a typing set, an accepted \<open>typingStopped\<close> event
  removes the named user (if one is given and it is not the empty string); if the set is
  then empty, the entry is deleted and the blurb becomes the stashed pending body, or the
  empty string if none was stashed; otherwise the blurb becomes the recomputed
  typing-indicator phrase.\<close>

lemma typingStopped_with_typing_set:
  assumes "accepted e cid ts s" and "type e = TypingStopped"
    and "typingUsers s cid = Some us"
  shows "\<exists>c'. map_of (conversations (handleEvent e s)) cid = Some c' \<and>
     (if withoutUser (user (data e)) us = []
      then typingUsers (handleEvent e s) cid = None \<and>
           blurb c' = (case lastBody s cid of None \<Rightarrow> [] | Some b \<Rightarrow> b)
      else typingUsers (handleEvent e s) cid = Some (withoutUser (user (data e)) us) \<and>
           blurb c' = getBlurbForTypingUsers cid (handleEvent e s))"
proof -
  have "map_of (conversations (handleEvent e s)) cid = Some (currentConversation cid (handleEvent e s))"
    using assms by (simp add: handleEvent_known_lookup)
  moreover have
    "if withoutUser (user (data e)) us = []
     then typingUsers (handleEvent e s) cid = None \<and>
          blurb (currentConversation cid (handleEvent e s)) =
            (case lastBody s cid of None \<Rightarrow> [] | Some b \<Rightarrow> b)
     else typingUsers (handleEvent e s) cid = Some (withoutUser (user (data e)) us) \<and>
          blurb (currentConversation cid (handleEvent e s)) =
            getBlurbForTypingUsers cid (handleEvent e s)"
    using assms(3)
    by (auto simp add: typingStopped_result[OF assms(1,2)] deleteBlurbForTypingUsers_def Let_def
        withoutUser_def setDelete_def getBlurbForTypingUsers_def orElse_def split: option.splits)
  ultimately show ?thesis by blast
qed

text \<open>
  Claim C5 asks that an accepted \<open>typingStopped\<close> event removes the named user and
  then, when the typing set is empty, sets the blurb to the stashed pending body (or the
  empty string if none was stashed), also where the conversation has no typing set at all
  but a pending body has been stashed. Where a typing set exists the store does so
  (lemma \<open>typingStopped_with_typing_set\<close>). Where none exists it does not:
  \<open>deleteBlurbForTypingUsers\<close> skips the branch that reads \<open>lastBody\<close> and falls
  through to \<open>return ''\<close>. After \<open>u1\<close> starts typing, the message \<open>hi\<close> arrives and
  \<open>u1\<close> stops typing, the store is reachable, the conversation has no typing set, the
  pending body \<open>hi\<close> is still stashed and the blurb is \<open>hi\<close>; a further accepted
  \<open>typingStopped\<close> event then blanks the blurb, with nobody typing.
\<close>

theorem typingStopped_without_typing_set_blanks_blurb:
  "reachable
     (handleEvents [mkEvent MessageReceived 2 ''c1'' None None (Some ''hi''),
                    mkEvent TypingStopped 3 ''c1'' (Some ''u1'') None None] typingStore) \<and>
   accepted (mkEvent TypingStopped 4 ''c1'' (Some ''u1'') None None) ''c1'' 4
     (handleEvents [mkEvent MessageReceived 2 ''c1'' None None (Some ''hi''),
                    mkEvent TypingStopped 3 ''c1'' (Some ''u1'') None None] typingStore) \<and>
   typingUsers
     (handleEvents [mkEvent MessageReceived 2 ''c1'' None None (Some ''hi''),
                    mkEvent TypingStopped 3 ''c1'' (Some ''u1'') None None] typingStore) ''c1'' = None \<and>
   lastBody
     (handleEvents [mkEvent MessageReceived 2 ''c1'' None None (Some ''hi''),
                    mkEvent TypingStopped 3 ''c1'' (Some ''u1'') None None] typingStore) ''c1'' = Some ''hi'' \<and>
   blurb (currentConversation ''c1''
     (handleEvents [mkEvent MessageReceived 2 ''c1'' None None (Some ''hi''),
                    mkEvent TypingStopped 3 ''c1'' (Some ''u1'') None None] typingStore)) = ''hi'' \<and>
   blurb (currentConversation ''c1''
     (handleEvent (mkEvent TypingStopped 4 ''c1'' (Some ''u1'') None None)
       (handleEvents [mkEvent MessageReceived 2 ''c1'' None None (Some ''hi''),
                      mkEvent TypingStopped 3 ''c1'' (Some ''u1'') None None] typingStore))) = [] \<and>
   blurb (currentConversation ''c1''
     (handleEvent (mkEvent TypingStopped 4 ''c1'' (Some ''u1'') None None)
       (handleEvents [mkEvent MessageReceived 2 ''c1'' None None (Some ''hi''),
                      mkEvent TypingStopped 3 ''c1'' (Some ''u1'') None None] typingStore))) \<noteq> ''hi''"
proof -
  have ne: "''hi'' \<noteq> []" by simp
  have "reachable
     (handleEvents [mkEvent MessageReceived 2 ''c1'' None None (Some ''hi''),
                    mkEvent TypingStopped 3 ''c1'' (Some ''u1'') None None] typingStore)"
    by (intro reachable_handleEvents reachable_typingStore)
  then show ?thesis
    unfolding typing_message_stop_eval[OF ne]
    by (simp add: accepted_def store_eval)
qed

section \<open>C6: unknown event type on a fresh conversation\<close>

text \<open>
  Claim C6 asks that an event of unknown type that is the first event for a fresh
  conversation id leaves no registry entry and no recorded event id behind, so that a
  resend with the same conversation id and timestamp can be applied. This holds whenever
  the event reaches the \<open>default\<close> arm (lemma \<open>unknown_first_event_rollback\<close>: the store
  is left exactly as it was, and an event with the same id and timestamp is accepted
  next). It fails where the event id collides: the id is the string
  \<open>`${conversationId}-${timestamp}`\<close>, and the pairs \<open>(a, -1)\<close> and \<open>(a-, 1)\<close> both
  give \<open>a--1\<close>. After an \<open>assigned\<close> event for \<open>a\<close> at timestamp \<open>-1\<close>, the
  conversation id \<open>a-\<close> is fresh, yet an unknown event for \<open>a-\<close> at timestamp \<open>1\<close> is
  dropped as a duplicate, its event id stays recorded, and the resend of a
  \<open>messageReceived\<close> event with the same id and timestamp is dropped as well.
\<close>

theorem unknown_first_event_key_collision:
  "eventId ''a'' (- 1) = eventId ''a-'' 1 \<and>
   map_of (conversations (handleEvent (mkEvent Assigned (- 1) ''a'' None None None) newStore)) ''a-'' = None \<and>
   handleEvent (mkEvent ''bogus'' 1 ''a-'' None None None)
     (handleEvent (mkEvent Assigned (- 1) ''a'' None None None) newStore) =
   handleEvent (mkEvent Assigned (- 1) ''a'' None None None) newStore \<and>
   eventId ''a-'' 1 \<in> uniqueEvents
     (handleEvent (mkEvent ''bogus'' 1 ''a-'' None None None)
        (handleEvent (mkEvent Assigned (- 1) ''a'' None None None) newStore)) \<and>
   handleEvent (mkEvent MessageReceived 1 ''a-'' None None (Some ''hi''))
     (handleEvent (mkEvent ''bogus'' 1 ''a-'' None None None)
        (handleEvent (mkEvent Assigned (- 1) ''a'' None None None) newStore)) =
   handleEvent (mkEvent ''bogus'' 1 ''a-'' None None None)
     (handleEvent (mkEvent Assigned (- 1) ''a'' None None None) newStore)"
proof -
  have s: "handleEvent (mkEvent Assigned (- 1) ''a'' None None None) newStore =
     \<lparr>conversations = [(''a'', \<lparr>id = ''a'', assignedUser = None, subject = [], blurb = [],
        messageCount = 0, lastUpdatedTimestamp = - 1\<rparr>)], lastBody = Map.empty,
      uniqueEvents = {''a--1''}, typingUsers = Map.empty\<rparr>"
    by (simp add: store_eval)
  have k: "eventId ''a-'' 1 = ''a--1''" "eventId ''a'' (- 1) = ''a--1''"
    by (simp_all add: eventId_def showInt_def showNat.simps digit_def)
  have b: "handleEvent (mkEvent ''bogus'' 1 ''a-'' None None None)
        (handleEvent (mkEvent Assigned (- 1) ''a'' None None None) newStore) =
      handleEvent (mkEvent Assigned (- 1) ''a'' None None None) newStore"
    unfolding s by (simp add: handleEvent_def mkEvent_def k)
  show ?thesis
    unfolding b unfolding s by (simp add: handleEvent_def mkEvent_def k)
qed

section \<open>C7: the read path\<close>

text \<open>
  Claim C7. For every store, \<open>getConversations\<close> returns exactly the registry entries
  (with their multiplicity) whose \<open>assignedUser\<close> is not a member of the block-list,
  sorted by \<open>lastUpdatedTimestamp\<close> in descending order, and it returns the store
  unchanged.
\<close>

theorem getConversations_spec:
  "mset (fst (getConversations s)) =
     mset (filter (\<lambda>c. assignedUser c \<notin> Some ` set blackListedUsers) (map snd (conversations s))) \<and>
   sorted_wrt (\<lambda>a b. lastUpdatedTimestamp b \<le> lastUpdatedTimestamp a) (fst (getConversations s)) \<and>
   snd (getConversations s) = s"
  by (simp add: getConversations_def Let_def mset_sortCmp sorted_sortCmp blackListed_iff)

section \<open>C8: truncation\<close>

text \<open>
  Claim C8. For every accepted \<open>messageReceived\<close> event whose body has at least 256
  characters, in a conversation whose typing set is absent or empty, the resulting blurb
  is exactly the first 256 characters of the body, hence 256 characters long; and
  \<open>getConversations\<close> hands out registry entries as they are, this one included unless
  its assigned user is on the block-list.
\<close>

theorem truncation:
  assumes "accepted e cid ts s" and "type e = MessageReceived"
    and "body (data e) = Some b" and "256 \<le> length b"
    and "typingUsers s cid = None \<or> typingUsers s cid = Some []"
  shows "\<exists>c'. map_of (conversations (handleEvent e s)) cid = Some c' \<and>
           blurb c' = take 256 b \<and> length (blurb c') = 256 \<and>
           (assignedUser c' \<notin> Some ` set blackListedUsers \<longrightarrow>
              c' \<in> set (fst (getConversations (handleEvent e s)))) \<and>
           set (fst (getConversations (handleEvent e s))) \<subseteq> snd ` set (conversations (handleEvent e s))"
proof -
  let ?s' = "handleEvent e s"
  let ?c' = "currentConversation cid ?s'"
  have look: "map_of (conversations ?s') cid = Some ?c'"
    using assms by (simp add: handleEvent_known_lookup)
  from assms(3,4) have ne: "take 256 b \<noteq> []" by auto
  have bl: "blurb ?c' = take 256 b"
    using assms ne
    by (auto simp add: handleEvent_accepted dispatch_MessageReceived Let_def admit_fields current_put
        orElse_def)
  from look have mem: "?c' \<in> snd ` set (conversations ?s')"
    by (metis map_of_SomeD image_eqI snd_conv)
  show ?thesis
  proof (intro exI conjI impI)
    show "map_of (conversations ?s') cid = Some ?c'" by (rule look)
    show "blurb ?c' = take 256 b" by (rule bl)
    show "length (blurb ?c') = 256" using bl assms(4) by simp
    show "set (fst (getConversations ?s')) \<subseteq> snd ` set (conversations ?s')"
      by (auto simp add: getConversations_member)
    assume "assignedUser ?c' \<notin> Some ` set blackListedUsers"
    with mem show "?c' \<in> set (fst (getConversations ?s'))"
      by (simp add: getConversations_member blackListed_iff)
  qed
qed

text \<open>Witness for C8: a body of 300 characters, as the first event of a new store.\<close>

theorem truncation_witness:
  "\<exists>c'. map_of (conversations
            (handleEvent (mkEvent MessageReceived 1 ''c1'' None None (Some (replicate 300 (CHR ''A''))))
               newStore)) ''c1'' = Some c' \<and>
         blurb c' = replicate 256 (CHR ''A'') \<and> length (blurb c') = 256"
proof -
  let ?e = "mkEvent MessageReceived 1 ''c1'' None None (Some (replicate 300 (CHR ''A'')))"
  have acc: "accepted ?e ''c1'' 1 newStore"
    by (simp add: accepted_def isStale_def mkEvent_def newStore_def)
  have ty: "type ?e = MessageReceived" by (simp add: mkEvent_def)
  have b: "body (data ?e) = Some (replicate 300 (CHR ''A''))" by (simp add: mkEvent_def)
  have len: "256 \<le> length (replicate 300 (CHR ''A''))" by simp
  have tu: "typingUsers newStore ''c1'' = None \<or> typingUsers newStore ''c1'' = Some []"
    by (simp add: newStore_def)
  from truncation[OF acc ty b len tu] show ?thesis
    by auto
qed

section \<open>C9: assigned\<close>

text \<open>
  Claim C9, as amended. For every accepted \<open>assigned\<close> event, \<open>assignedUser\<close> becomes
  the incoming user when the user field is present and not the empty string, and
  \<open>null\<close> when the user field is absent or is the empty string.
\<close>

theorem assigned_effect:
  assumes "accepted e cid ts s" and "type e = Assigned"
  shows "\<exists>c'. map_of (conversations (handleEvent e s)) cid = Some c' \<and>
     assignedUser c' =
       (case user (data e) of None \<Rightarrow> None | Some u \<Rightarrow> if u = [] then None else Some u)"
proof -
  have "map_of (conversations (handleEvent e s)) cid = Some (currentConversation cid (handleEvent e s))"
    using assms by (simp add: handleEvent_known_lookup)
  moreover have "assignedUser (currentConversation cid (handleEvent e s)) = orNull (user (data e))"
    using assms by (simp add: handleEvent_accepted dispatch_Assigned current_put)
  ultimately show ?thesis by (simp add: orNull_def)
qed

text \<open>Witness for C9: assigning to \<open>John_Doe\<close>.\<close>

theorem assigned_effect_witness:
  "\<exists>c'. map_of (conversations
            (handleEvent (mkEvent Assigned 1 ''c1'' (Some ''John_Doe'') None None) newStore))
          ''c1'' = Some c' \<and> assignedUser c' = Some ''John_Doe''"
proof -
  let ?e = "mkEvent Assigned 1 ''c1'' (Some ''John_Doe'') None None"
  have acc: "accepted ?e ''c1'' 1 newStore"
    by (simp add: accepted_def isStale_def mkEvent_def newStore_def)
  have ty: "type ?e = Assigned" by (simp add: mkEvent_def)
  from assigned_effect[OF acc ty] show ?thesis
    by (simp add: mkEvent_def)
qed

text \<open>Counterexample to C9 as stated: an accepted \<open>assigned\<close> event whose user field is
  present and empty leaves \<open>assignedUser\<close> at \<open>null\<close>, not at the empty string.\<close>

theorem assigned_empty_user_counterexample:
  "accepted (mkEvent Assigned 1 ''c1'' (Some []) None None) ''c1'' 1 newStore \<and>
   user (data (mkEvent Assigned 1 ''c1'' (Some []) None None)) = Some [] \<and>
   assignedUser (currentConversation ''c1''
     (handleEvent (mkEvent Assigned 1 ''c1'' (Some []) None None) newStore)) \<noteq> Some [] \<and>
   map_of (conversations (handleEvent (mkEvent Assigned 1 ''c1'' (Some []) None None) newStore)) ''c1'' =
     Some \<lparr>id = ''c1'', assignedUser = None, subject = [], blurb = [], messageCount = 0,
            lastUpdatedTimestamp = 1\<rparr>"
  by (simp add: accepted_def store_eval)

section \<open>C10: empty strings count as absent\<close>

text \<open>
  Claim C10. Handling an event gives the same store as handling the event with every
  present-but-empty \<open>user\<close>, \<open>subject\<close> and \<open>body\<close> made absent. In particular, for
  an accepted \<open>messageReceived\<close> event: a present-but-empty body with nobody typing
  leaves the blurb as it was, and a present-but-empty subject leaves the subject as it
  was.
\<close>

theorem empty_string_as_absent:
  "handleEvent (e\<lparr>data := dropEmpty (data e)\<rparr>) s = handleEvent e s \<and>
   (accepted e cid ts s \<and> type e = MessageReceived \<longrightarrow>
      (\<exists>c'. map_of (conversations (handleEvent e s)) cid = Some c' \<and>
         (body (data e) = Some [] \<and> (typingUsers s cid = None \<or> typingUsers s cid = Some []) \<longrightarrow>
            blurb c' = blurb (currentConversation cid s)) \<and>
         (EventData.subject (data e) = Some [] \<longrightarrow>
            subject c' = subject (currentConversation cid s))))"
proof (intro conjI impI)
  show "handleEvent (e\<lparr>data := dropEmpty (data e)\<rparr>) s = handleEvent e s"
    by (rule handleEvent_dropEmpty)
next
  assume h: "accepted e cid ts s \<and> type e = MessageReceived"
  let ?c' = "currentConversation cid (handleEvent e s)"
  from h have look: "map_of (conversations (handleEvent e s)) cid = Some ?c'"
    using handleEvent_known_lookup[of e cid ts s] by simp
  from h have eq: "handleEvent e s =
      dispatch MessageReceived cid ts (data e) (currentConversation cid s) (admit cid ts s)"
    using handleEvent_accepted[of e cid ts s] by simp
  have b: "blurb ?c' = blurb (currentConversation cid s)"
    if "body (data e) = Some [] \<and> (typingUsers s cid = None \<or> typingUsers s cid = Some [])"
    using that unfolding eq
    by (auto simp add: dispatch_MessageReceived Let_def admit_fields current_put orElse_def)
  have su: "subject ?c' = subject (currentConversation cid s)"
    if "EventData.subject (data e) = Some []"
    using that unfolding eq
    by (simp add: dispatch_MessageReceived Let_def admit_fields current_put orElse_def)
  from look b su
  show "\<exists>c'. map_of (conversations (handleEvent e s)) cid = Some c' \<and>
         (body (data e) = Some [] \<and> (typingUsers s cid = None \<or> typingUsers s cid = Some []) \<longrightarrow>
            blurb c' = blurb (currentConversation cid s)) \<and>
         (EventData.subject (data e) = Some [] \<longrightarrow>
            subject c' = subject (currentConversation cid s))"
    by blast
qed

text \<open>Witness for C10: after the message \<open>B\<close>, a message with empty subject and
  empty body.\<close>

theorem empty_string_as_absent_witness:
  "\<exists>c'. map_of (conversations
            (handleEvent (mkEvent MessageReceived 21 ''c1'' None (Some []) (Some []))
               (handleEvent (mkEvent MessageReceived 20 ''c1'' None None (Some ''B'')) newStore)))
          ''c1'' = Some c' \<and> blurb c' = ''B'' \<and> subject c' = []"
proof -
  let ?s = "handleEvent (mkEvent MessageReceived 20 ''c1'' None None (Some ''B'')) newStore"
  let ?e = "mkEvent MessageReceived 21 ''c1'' None (Some []) (Some [])"
  have acc: "accepted ?e ''c1'' 21 ?s"
    unfolding message20_eval
    by (simp add: accepted_def isStale_def mkEvent_def eventId_def showInt_def
        showNat.simps digit_def)
  have ty: "type ?e = MessageReceived" by (simp add: mkEvent_def)
  have d: "body (data ?e) = Some []" "EventData.subject (data ?e) = Some []"
    by (simp_all add: mkEvent_def)
  have tu: "typingUsers ?s ''c1'' = None" unfolding message20_eval by simp
  have cur: "blurb (currentConversation ''c1'' ?s) = ''B''"
    "subject (currentConversation ''c1'' ?s) = []"
    unfolding message20_eval by (simp_all add: currentConversation_def)
  from empty_string_as_absent[of ?e ?s "''c1''" 21] acc ty d tu cur show ?thesis
    by auto
qed

end
